theory Spec2Isabelle
  imports Complex_Main "HOL-Library.AList"
begin

section \<open>Exceptions\<close>

text \<open>
  The exceptions that the modelled functions of \<^verbatim>\<open>rngtest/store.py\<close> and
  \<^verbatim>\<open>coinflip/_randtests/common/result.py\<close> raise or let through. \<open>OSError\<close> stands
  for the "directory not empty" failure of \<^verbatim>\<open>rmdir\<close>, \<open>RuntimeError\<close> for an arbitrary
  exception raised by a caller's block.
\<close>

datatype error =
    FileNotFoundError
  | FileExistsError
  | NotADirectoryError
  | IsADirectoryError
  | OSError
  | RecursionError
  | EOFError
  | StopIteration
  | RuntimeError
  | StoreExistsError
  | NameConflictError
  | StoreNotFoundError
  | DataNotFoundError

section \<open>The file system\<close>

text \<open>
  A file system is a tree: a file holds a content, a directory holds named entries in the
  order in which \<^verbatim>\<open>scandir\<close> lists them. A path is the list of its components. The tree
  is rooted at the user data directory in which \<^verbatim>\<open>appdirs\<close> places the application
  directory, so \<^verbatim>\<open>data_dir\<close> is the one-component path \<open>[''rngtest'']\<close>. Store names are
  single path components (what \<^verbatim>\<open>slugify\<close> and \<^verbatim>\<open>strftime\<close> produce), so
  \<^verbatim>\<open>data_dir / store_name\<close> appends one component.
\<close>

type_synonym path = "string list"

datatype 'c node = File 'c | Dir "(string \<times> 'c node) list"

text \<open>Resolving a path: a missing component is ENOENT, a file in the middle is ENOTDIR.\<close>

primrec resolve :: "path \<Rightarrow> 'c node \<Rightarrow> error + 'c node" where
  "resolve [] n = Inr n"
| "resolve (x # xs) n =
     (case n of
        File _ \<Rightarrow> Inl NotADirectoryError
      | Dir es \<Rightarrow>
          (case map_of es x of
             None \<Rightarrow> Inl FileNotFoundError
           | Some c \<Rightarrow> resolve xs c))"

text \<open>\<^verbatim>\<open>Path.exists\<close>, \<^verbatim>\<open>Path.is_file\<close>, \<^verbatim>\<open>DirEntry.is_dir\<close>.\<close>

definition exists :: "path \<Rightarrow> 'c node \<Rightarrow> bool" where
  "exists p fs = (case resolve p fs of Inl _ \<Rightarrow> False | Inr _ \<Rightarrow> True)"

definition is_file :: "path \<Rightarrow> 'c node \<Rightarrow> bool" where
  "is_file p fs = (case resolve p fs of Inr (File _) \<Rightarrow> True | _ \<Rightarrow> False)"

primrec is_dir :: "'c node \<Rightarrow> bool" where
  "is_dir (File _) = False"
| "is_dir (Dir _) = True"

text \<open>\<^verbatim>\<open>os.scandir\<close>: the entries of a directory, or the error of opening it.\<close>

definition scandir :: "path \<Rightarrow> 'c node \<Rightarrow> error + (string \<times> 'c node) list" where
  "scandir p fs =
     (case resolve p fs of
        Inl e \<Rightarrow> Inl e
      | Inr (File _) \<Rightarrow> Inl NotADirectoryError
      | Inr (Dir es) \<Rightarrow> Inr es)"

text \<open>
  \<^verbatim>\<open>Path.glob("*")\<close>: the names of the entries of a directory; nothing for a path that is
  not a directory.
\<close>

definition glob :: "path \<Rightarrow> 'c node \<Rightarrow> string list" where
  "glob p fs = (case scandir p fs of Inl _ \<Rightarrow> [] | Inr es \<Rightarrow> map fst es)"

text \<open>
  Changing the directory at a path: \<open>modify p g fs\<close> applies \<open>g\<close> to the entries of the
  directory at \<open>p\<close> and rebuilds the tree above it. The system calls below are this
  function at the parent of their argument.
\<close>

primrec modify ::
  "path \<Rightarrow> ((string \<times> 'c node) list \<Rightarrow> error + (string \<times> 'c node) list) \<Rightarrow> 'c node \<Rightarrow> error + 'c node"
where
  "modify [] g n =
     (case n of
        File _ \<Rightarrow> Inl NotADirectoryError
      | Dir es \<Rightarrow> (case g es of Inl e \<Rightarrow> Inl e | Inr es' \<Rightarrow> Inr (Dir es')))"
| "modify (x # xs) g n =
     (case n of
        File _ \<Rightarrow> Inl NotADirectoryError
      | Dir es \<Rightarrow>
          (case map_of es x of
             None \<Rightarrow> Inl FileNotFoundError
           | Some c \<Rightarrow>
               (case modify xs g c of
                  Inl e \<Rightarrow> Inl e
                | Inr c' \<Rightarrow> Inr (Dir (AList.update x c' es)))))"

text \<open>\<^verbatim>\<open>Path.unlink\<close>: removes a file.\<close>

definition unlink :: "path \<Rightarrow> 'c node \<Rightarrow> error + 'c node" where
  "unlink p fs =
     (if p = [] then Inl IsADirectoryError
      else modify (butlast p)
             (\<lambda>es. case map_of es (last p) of
                      None \<Rightarrow> Inl FileNotFoundError
                    | Some (File _) \<Rightarrow> Inr (AList.delete (last p) es)
                    | Some (Dir _) \<Rightarrow> Inl IsADirectoryError) fs)"

text \<open>\<^verbatim>\<open>Path.rmdir\<close>: removes an empty directory.\<close>

definition rmdir :: "path \<Rightarrow> 'c node \<Rightarrow> error + 'c node" where
  "rmdir p fs =
     (if p = [] then Inl OSError
      else modify (butlast p)
             (\<lambda>es. case map_of es (last p) of
                      None \<Rightarrow> Inl FileNotFoundError
                    | Some (File _) \<Rightarrow> Inl NotADirectoryError
                    | Some (Dir []) \<Rightarrow> Inr (AList.delete (last p) es)
                    | Some (Dir (_ # _)) \<Rightarrow> Inl OSError) fs)"

text \<open>\<^verbatim>\<open>Path.mkdir\<close> without \<^verbatim>\<open>parents\<close>: creates an empty directory.\<close>

definition mkdir :: "path \<Rightarrow> 'c node \<Rightarrow> error + 'c node" where
  "mkdir p fs =
     (if p = [] then Inl FileExistsError
      else modify (butlast p)
             (\<lambda>es. case map_of es (last p) of
                      None \<Rightarrow> Inr (es @ [(last p, Dir [])])
                    | Some _ \<Rightarrow> Inl FileExistsError) fs)"

text \<open>
  \<^verbatim>\<open>open(path, "wb")\<close> followed by writing \<open>c\<close> and closing: creates the file or replaces
  its content. With the empty content this is what opening alone does.
\<close>

definition write_file :: "path \<Rightarrow> 'c \<Rightarrow> 'c node \<Rightarrow> error + 'c node" where
  "write_file p c fs =
     (if p = [] then Inl IsADirectoryError
      else modify (butlast p)
             (\<lambda>es. case map_of es (last p) of
                      None \<Rightarrow> Inr (es @ [(last p, File c)])
                    | Some (File _) \<Rightarrow> Inr (AList.update (last p) (File c) es)
                    | Some (Dir _) \<Rightarrow> Inl IsADirectoryError) fs)"

text \<open>\<^verbatim>\<open>open(path, "rb")\<close> followed by reading everything.\<close>

definition read_file :: "path \<Rightarrow> 'c node \<Rightarrow> error + 'c" where
  "read_file p fs =
     (case resolve p fs of
        Inl e \<Rightarrow> Inl e
      | Inr (File c) \<Rightarrow> Inr c
      | Inr (Dir _) \<Rightarrow> Inl IsADirectoryError)"

subsection \<open>Well-formed trees, their height, and the tree with one directory replaced\<close>

text \<open>
  These three functions are used to state the properties; the program does not call
  them. The height of a tree is the number of nested directories, which is the number of
  nested calls that \<^verbatim>\<open>rm_tree\<close> needs. A tree is well formed when the names in each
  directory are distinct. \<open>put_dir p es' fs\<close> is \<open>fs\<close> with the entries of the directory
  at \<open>p\<close> replaced by \<open>es'\<close>.
\<close>

fun height :: "'c node \<Rightarrow> nat" where
  "height (File _) = 0"
| "height (Dir es) = Suc (fold max (map (\<lambda>e. height (snd e)) es) 0)"

fun wf_node :: "'c node \<Rightarrow> bool" where
  "wf_node (File _) = True"
| "wf_node (Dir es) = (distinct (map fst es) \<and> list_all (\<lambda>e. wf_node (snd e)) es)"

primrec put_dir :: "path \<Rightarrow> (string \<times> 'c node) list \<Rightarrow> 'c node \<Rightarrow> 'c node" where
  "put_dir [] es' n = Dir es'"
| "put_dir (x # xs) es' n =
     (case n of
        File c \<Rightarrow> File c
      | Dir es \<Rightarrow>
          (case map_of es x of
             None \<Rightarrow> Dir es
           | Some c \<Rightarrow> Dir (AList.update x (put_dir xs es' c) es)))"

section \<open>Stores\<close>

definition data_dir :: path where
  "data_dir = [''rngtest'']"

definition store_path :: "string \<Rightarrow> path" where
  "store_path store_name = data_dir @ [store_name]"

subsection \<open>\<^verbatim>\<open>ls_stores\<close>\<close>

text \<open>
  \<^verbatim>\<open>ls_stores\<close> is a generator. Its run on a file system that nobody changes meanwhile
  is the list of the names it yields, followed by the exception that ends it, if any. The
  first loop stands outside the \<^verbatim>\<open>try\<close>, the second one inside it, where only
  \<^verbatim>\<open>FileNotFoundError\<close> is swallowed. The \<^verbatim>\<open>print\<close> calls are left out.
\<close>

type_synonym 'a generator = "'a list \<times> error option"

definition dir_names :: "(string \<times> 'c node) list \<Rightarrow> string list" where
  "dir_names es = map fst (filter (\<lambda>f. is_dir (snd f)) es)"

definition ls_stores :: "'c node \<Rightarrow> string generator" where
  "ls_stores fs =
     (case scandir data_dir fs of
        Inl e \<Rightarrow> ([], Some e)
      | Inr es1 \<Rightarrow>
          (case scandir data_dir fs of
             Inl e \<Rightarrow> (dir_names es1, if e = FileNotFoundError then None else Some e)
           | Inr es2 \<Rightarrow> (dir_names es1 @ dir_names es2, None)))"

text \<open>Consuming a generator to its end (\<^verbatim>\<open>list(g)\<close>), and the test \<^verbatim>\<open>x in g\<close>, which stops
  at the first hit.\<close>

definition consume :: "'a generator \<Rightarrow> error + 'a list" where
  "consume g = (case snd g of None \<Rightarrow> Inr (fst g) | Some e \<Rightarrow> Inl e)"

definition contains :: "'a \<Rightarrow> 'a generator \<Rightarrow> error + bool" where
  "contains x g =
     (if x \<in> set (fst g) then Inr True
      else case snd g of None \<Rightarrow> Inr False | Some e \<Rightarrow> Inl e)"

subsection \<open>\<^verbatim>\<open>rm_tree\<close> and \<^verbatim>\<open>drop\<close>\<close>

text \<open>
  A \<^verbatim>\<open>for\<close> loop over a list whose body changes the state and may raise: the first
  exception ends the loop and leaves the state as it is then.
\<close>

primrec for_each :: "('x \<Rightarrow> 's \<Rightarrow> (error + unit) \<times> 's) \<Rightarrow> 'x list \<Rightarrow> 's \<Rightarrow> (error + unit) \<times> 's" where
  "for_each body [] s = (Inr (), s)"
| "for_each body (x # xs) s =
     (case body x s of
        (Inl e, s') \<Rightarrow> (Inl e, s')
      | (Inr _, s') \<Rightarrow> for_each body xs s')"

text \<open>A system call as a statement: on failure the state is unchanged.\<close>

definition attempt :: "error + 's \<Rightarrow> 's \<Rightarrow> (error + unit) \<times> 's" where
  "attempt r s = (case r of Inl e \<Rightarrow> (Inl e, s) | Inr s' \<Rightarrow> (Inr (), s'))"

text \<open>
  \<^verbatim>\<open>rm_tree\<close> calls itself on every child that is not a file. Its first argument is the
  number of nested calls that the interpreter still allows; when none is left the call
  raises \<^verbatim>\<open>RecursionError\<close>. The children are listed once, before the loop.
\<close>

primrec rm_tree :: "nat \<Rightarrow> path \<Rightarrow> 'c node \<Rightarrow> (error + unit) \<times> 'c node" where
  "rm_tree 0 path fs = (Inl RecursionError, fs)"
| "rm_tree (Suc depth) path fs =
     (case for_each
             (\<lambda>child fs.
                if is_file (path @ [child]) fs then attempt (unlink (path @ [child]) fs) fs
                else rm_tree depth (path @ [child]) fs)
             (glob path fs) fs of
        (Inl e, fs') \<Rightarrow> (Inl e, fs')
      | (Inr _, fs') \<Rightarrow> attempt (rmdir path fs') fs')"

definition drop_store :: "nat \<Rightarrow> string \<Rightarrow> 'c node \<Rightarrow> (error + unit) \<times> 'c node" where
  "drop_store depth store_name fs = rm_tree depth (store_path store_name) fs"

subsection \<open>\<^verbatim>\<open>init_store\<close>\<close>

definition UNIQUE_STORENAME_ATTEMPTS :: nat where
  "UNIQUE_STORENAME_ATTEMPTS = 3"

text \<open>
  The loop that synthesises a name. \<open>now t\<close> is the formatted timestamp that the
  \<open>t\<close>-th reading of the clock gives (the \<^verbatim>\<open>sleep\<close> between two attempts only
  decides what the next reading is). The function returns the name or the exception,
  and the number of readings made so far.
\<close>

primrec try_names :: "nat \<Rightarrow> (nat \<Rightarrow> string) \<Rightarrow> nat \<Rightarrow> 'c node \<Rightarrow> (error + string) \<times> nat" where
  "try_names 0 now t fs = (Inl NameConflictError, t)"
| "try_names (Suc attempts) now t fs =
     (case contains (now t) (ls_stores fs) of
        Inl e \<Rightarrow> (Inl e, Suc t)
      | Inr found \<Rightarrow>
          if \<not> found then (Inr (now t), Suc t)
          else try_names attempts now (Suc t) fs)"

text \<open>
  \<^verbatim>\<open>init_store\<close>. \<^verbatim>\<open>slugify\<close> is not part of the sources at hand and is a parameter, as are
  the clock and the depth of recursion left to \<^verbatim>\<open>rm_tree\<close>.
\<close>

definition init_store ::
  "(string \<Rightarrow> string) \<Rightarrow> (nat \<Rightarrow> string) \<Rightarrow> nat \<Rightarrow> string option \<Rightarrow> bool \<Rightarrow> 'c node
     \<Rightarrow> (error + string \<times> path) \<times> 'c node"
where
  "init_store slugify now depth name overwrite fs =
     (case (case name of
              Some n \<Rightarrow> Inr (slugify n)
            | None \<Rightarrow> fst (try_names UNIQUE_STORENAME_ATTEMPTS now 0 fs)) of
        Inl e \<Rightarrow> (Inl e, fs)
      | Inr store_name \<Rightarrow>
          (case mkdir (store_path store_name) fs of
             Inr fs' \<Rightarrow> (Inr (store_name, store_path store_name), fs')
           | Inl e \<Rightarrow>
               if e = FileExistsError then
                 if overwrite then
                   (case rm_tree depth (store_path store_name) fs of
                      (Inl e', fs') \<Rightarrow> (Inl e', fs')
                    | (Inr _, fs') \<Rightarrow>
                        (case mkdir (store_path store_name) fs' of
                           Inl e' \<Rightarrow> (Inl e', fs')
                         | Inr fs'' \<Rightarrow> (Inr (store_name, store_path store_name), fs'')))
                 else (Inl StoreExistsError, fs)
               else (Inl e, fs)))"

subsection \<open>Pickled artifacts\<close>

text \<open>
  A file of a store is empty or holds one pickled object, which \<^verbatim>\<open>pickle.load\<close> gives
  back as it was dumped. On an empty file \<^verbatim>\<open>pickle.load\<close> raises \<^verbatim>\<open>EOFError\<close>. The
  objects are the sequence of a store and its results dictionary, in insertion order.
\<close>

datatype 'o content = Truncated | Pickled 'o

datatype ('s, 'r) pyobj = Series 's | ResultsDict "(string \<times> 'r) list"

primrec pickle_load :: "'o content \<Rightarrow> error + 'o" where
  "pickle_load Truncated = Inl EOFError"
| "pickle_load (Pickled v) = Inr v"

definition PROFILED_DATA_FNAME :: string where
  "PROFILED_DATA_FNAME = ''series.pickle''"

definition RESULTS_FNAME :: string where
  "RESULTS_FNAME = ''results.pickle''"

subsection \<open>\<^verbatim>\<open>get_data\<close>\<close>

definition get_data :: "string \<Rightarrow> 'o content node \<Rightarrow> error + 'o" where
  "get_data store_name fs =
     (if \<not> exists (store_path store_name) fs then Inl StoreNotFoundError
      else
        (case read_file (store_path store_name @ [PROFILED_DATA_FNAME]) fs of
           Inl e \<Rightarrow> if e = FileNotFoundError then Inl DataNotFoundError else Inl e
         | Inr c \<Rightarrow> pickle_load c))"

subsection \<open>\<^verbatim>\<open>open_results\<close>\<close>

text \<open>
  \<^verbatim>\<open>open_results\<close> is a context manager made from a generator. Entering the \<^verbatim>\<open>with\<close>
  statement runs it up to its \<^verbatim>\<open>yield\<close>: \<open>open_results_enter\<close> gives the yielded
  dictionary, or the exception raised before it. With \<^verbatim>\<open>write\<close>, the results file has
  been opened in mode \<^verbatim>\<open>"wb"\<close> by then, which creates it or empties it.
\<close>

definition open_results_enter ::
  "string \<Rightarrow> bool \<Rightarrow> ('s, 'r) pyobj content node
     \<Rightarrow> (error + ('s, 'r) pyobj) \<times> ('s, 'r) pyobj content node"
where
  "open_results_enter store_name write fs =
     (let results_path = store_path store_name @ [RESULTS_FNAME] in
      case (if \<not> exists results_path fs then Inr (ResultsDict [])
            else
              (case read_file results_path fs of
                 Inl e \<Rightarrow> Inl e
               | Inr c \<Rightarrow>
                   (case pickle_load c of
                      Inl e \<Rightarrow> if e = EOFError then Inr (ResultsDict []) else Inl e
                    | Inr results \<Rightarrow> Inr results))) of
        Inl e \<Rightarrow> (Inl e, fs)
      | Inr results \<Rightarrow>
          if write then
            (case write_file results_path Truncated fs of
               Inl e \<Rightarrow> (Inl e, fs)
             | Inr fs' \<Rightarrow> (Inr results, fs'))
          else
            (case read_file results_path fs of
               Inl e \<Rightarrow> (Inl e, fs)
             | Inr _ \<Rightarrow> (Inr results, fs)))"

text \<open>
  Leaving the \<^verbatim>\<open>with\<close> statement resumes the generator at its \<^verbatim>\<open>yield\<close>: an exception
  of the block is thrown in there and leaves through the inner \<^verbatim>\<open>with\<close>, which closes
  the file; otherwise, with \<^verbatim>\<open>write\<close>, the dictionary is dumped into the open file.
\<close>

definition open_results_exit ::
  "string \<Rightarrow> bool \<Rightarrow> ('s, 'r) pyobj \<Rightarrow> error option \<Rightarrow> ('s, 'r) pyobj content node
     \<Rightarrow> error option \<times> ('s, 'r) pyobj content node"
where
  "open_results_exit store_name write results raised fs =
     (let results_path = store_path store_name @ [RESULTS_FNAME] in
      case raised of
        Some e \<Rightarrow> (Some e, fs)
      | None \<Rightarrow>
          if write then
            (case write_file results_path (Pickled results) fs of
               Inl e \<Rightarrow> (Some e, fs)
             | Inr fs' \<Rightarrow> (None, fs'))
          else (None, fs))"

text \<open>
  The whole statement \<^verbatim>\<open>with open_results(store_name, write) as results_dict: block\<close>.
  The block gets the yielded dictionary, mutates it and ends normally or with an
  exception: \<open>block results\<close> is the dictionary as the block leaves it and the exception,
  if any.
\<close>

definition with_open_results ::
  "string \<Rightarrow> bool \<Rightarrow> (('s, 'r) pyobj \<Rightarrow> ('s, 'r) pyobj \<times> error option)
     \<Rightarrow> ('s, 'r) pyobj content node \<Rightarrow> error option \<times> ('s, 'r) pyobj content node"
where
  "with_open_results store_name write block fs =
     (case open_results_enter store_name write fs of
        (Inl e, fs') \<Rightarrow> (Some e, fs')
      | (Inr results, fs') \<Rightarrow>
          (case block results of
             (results', raised) \<Rightarrow> open_results_exit store_name write results' raised fs'))"

section \<open>Test results\<close>

text \<open>
  \<^verbatim>\<open>TestResult\<close> is a dataclass of four fields. The statistic and the p-value are
  numbers; they are modelled as reals, which leaves out the not-a-number value of a
  Python float (a p-value is a probability).
\<close>

record 'a TestResult =
  heads :: 'a
  tails :: 'a
  statistic :: real
  p :: real

text \<open>
  \<^verbatim>\<open>MultiTestResult\<close> is a \<^verbatim>\<open>dict\<close> from features to test results: its contents are the
  list of its items in insertion order, with distinct features. The three functions under
  the \<^verbatim>\<open>lru_cache\<close> decorators follow; \<^verbatim>\<open>next\<close> on the items of an empty dictionary
  raises \<^verbatim>\<open>StopIteration\<close>.
\<close>

type_synonym ('f, 'a) items = "('f \<times> 'a TestResult) list"

definition statistics_uncached :: "('f, 'a) items \<Rightarrow> real list" where
  "statistics_uncached items = map (\<lambda>item. statistic (snd item)) items"

definition pvalues_uncached :: "('f, 'a) items \<Rightarrow> real list" where
  "pvalues_uncached items = map (\<lambda>item. p (snd item)) items"

primrec min_scan :: "('f \<times> 'a TestResult) \<Rightarrow> ('f, 'a) items \<Rightarrow> ('f \<times> 'a TestResult)" where
  "min_scan m [] = m"
| "min_scan m (item # items) =
     (if p (snd item) < p (snd m) then min_scan item items else min_scan m items)"

definition min_uncached :: "('f, 'a) items \<Rightarrow> error + ('f \<times> 'a TestResult)" where
  "min_uncached items =
     (case items of
        [] \<Rightarrow> Inl StopIteration
      | first # rest \<Rightarrow> Inr (min_scan first rest))"

subsection \<open>The cached properties\<close>

text \<open>
  The three properties are wrapped in \<^verbatim>\<open>lru_cache()\<close>, whose key is the instance. An
  instance is an address in a heap of dictionaries. Every instance hashes to \<open>0\<close>
  (\<^verbatim>\<open>__hash__\<close>), so a cached key matches when it is the same object or when the two
  dictionaries are equal as \<^verbatim>\<open>dict\<close>s at the time of the call. Each decorated function
  has one cache for all instances, of at most \<open>maxsize\<close> entries, kept here from the least
  to the most recently used: a hit moves the entry to the end, a miss on a full cache
  drops the first entry, and an exception of the function is not cached. Where several
  cached keys match, the least recently used one is taken.
\<close>

type_synonym addr = nat

definition dict_eq :: "('k \<times> 'v) list \<Rightarrow> ('k \<times> 'v) list \<Rightarrow> bool" where
  "dict_eq a b = (length a = length b \<and> list_all (\<lambda>item. map_of b (fst item) = Some (snd item)) a)"

definition key_eq :: "(addr \<Rightarrow> ('k \<times> 'v) list) \<Rightarrow> addr \<Rightarrow> addr \<Rightarrow> bool" where
  "key_eq h a b = (a = b \<or> dict_eq (h a) (h b))"

definition maxsize :: nat where
  "maxsize = 128"

definition lru_cache_call ::
  "(addr \<Rightarrow> addr \<Rightarrow> bool) \<Rightarrow> (addr \<Rightarrow> error + 'v) \<Rightarrow> addr \<Rightarrow> (addr \<times> 'v) list
     \<Rightarrow> (error + 'v) \<times> (addr \<times> 'v) list"
where
  "lru_cache_call eq user_function key cache =
     (case find (\<lambda>entry. eq (fst entry) key) cache of
        Some entry \<Rightarrow> (Inr (snd entry), remove1 entry cache @ [entry])
      | None \<Rightarrow>
          (case user_function key of
             Inl e \<Rightarrow> (Inl e, cache)
           | Inr result \<Rightarrow>
               (Inr result, (if maxsize \<le> length cache then tl cache else cache) @ [(key, result)])))"

text \<open>The state of the interpreter: the heap and the caches of the three functions.\<close>

record ('f, 'a) interp =
  heap :: "addr \<Rightarrow> ('f, 'a) items"
  statistics_cache :: "(addr \<times> real list) list"
  pvalues_cache :: "(addr \<times> real list) list"
  min_cache :: "(addr \<times> ('f \<times> 'a TestResult)) list"

definition statistics :: "addr \<Rightarrow> ('f, 'a) interp \<Rightarrow> (error + real list) \<times> ('f, 'a) interp" where
  "statistics self s =
     (case lru_cache_call (key_eq (heap s)) (\<lambda>a. Inr (statistics_uncached (heap s a))) self
             (statistics_cache s) of
        (r, cache) \<Rightarrow> (r, s\<lparr>statistics_cache := cache\<rparr>))"

definition pvalues :: "addr \<Rightarrow> ('f, 'a) interp \<Rightarrow> (error + real list) \<times> ('f, 'a) interp" where
  "pvalues self s =
     (case lru_cache_call (key_eq (heap s)) (\<lambda>a. Inr (pvalues_uncached (heap s a))) self
             (pvalues_cache s) of
        (r, cache) \<Rightarrow> (r, s\<lparr>pvalues_cache := cache\<rparr>))"

definition min_item ::
  "addr \<Rightarrow> ('f, 'a) interp \<Rightarrow> (error + ('f \<times> 'a TestResult)) \<times> ('f, 'a) interp" where
  "min_item self s =
     (case lru_cache_call (key_eq (heap s)) (\<lambda>a. min_uncached (heap s a)) self (min_cache s) of
        (r, cache) \<Rightarrow> (r, s\<lparr>min_cache := cache\<rparr>))"

text \<open>\<^verbatim>\<open>self[feature] = result\<close>: replaces the value of a feature in place, or appends a
  new item.\<close>

definition setitem :: "addr \<Rightarrow> 'f \<Rightarrow> 'a TestResult \<Rightarrow> ('f, 'a) interp \<Rightarrow> ('f, 'a) interp" where
  "setitem self feature result s =
     s\<lparr>heap := (heap s)(self := AList.update feature result (heap s self))\<rparr>"

text \<open>An interpreter in which no property has been read yet.\<close>

definition fresh :: "(addr \<Rightarrow> ('f, 'a) items) \<Rightarrow> ('f, 'a) interp" where
  "fresh h = \<lparr>heap = h, statistics_cache = [], pvalues_cache = [], min_cache = []\<rparr>"

section \<open>Examples\<close>

subsection \<open>Example file systems\<close>

definition fs_no_root :: "unit node" where
  "fs_no_root = Dir []"

definition fs_two_stores :: "unit node" where
  "fs_two_stores = Dir [(''rngtest'', Dir [(''a'', Dir []), (''notes.txt'', File ()), (''b'', Dir [])])]"

definition fs_demo :: "(nat list, nat) pyobj content node" where
  "fs_demo = Dir [(''rngtest'', Dir
     [(''empty'', Dir []),
      (''demo'', Dir [(''series.pickle'', File (Pickled (Series [0, 1, 1, 0, 1]))),
                      (''results.pickle'', File (Pickled (ResultsDict [(''Runs'', 42)])))])])]"

text \<open>A block that files one more result and then fails.\<close>

definition failing_block :: "(nat list, nat) pyobj \<Rightarrow> (nat list, nat) pyobj \<times> error option" where
  "failing_block results =
     (case results of
        ResultsDict d \<Rightarrow> (ResultsDict (d @ [(''Monobit'', 7)]), Some RuntimeError)
      | Series s \<Rightarrow> (Series s, Some RuntimeError))"

text \<open>Three readings of the clock, 1.5 seconds apart, and a root in which all three names
  are taken.\<close>

definition clock_demo :: "nat \<Rightarrow> string" where
  "clock_demo t =
     (if t = 0 then ''20200101T000000Z''
      else if t = 1 then ''20200101T000001Z''
      else ''20200101T000003Z'')"

definition fs_taken :: "unit node" where
  "fs_taken = Dir [(''rngtest'', Dir
     [(''20200101T000000Z'', Dir []),
      (''20200101T000001Z'', Dir [(''series.pickle'', File ())]),
      (''20200101T000003Z'', Dir [])])]"

text \<open>A store with nested subdirectories, beside another store.\<close>

definition fs_nested :: "unit node" where
  "fs_nested = Dir [(''rngtest'', Dir
     [(''old'', Dir [(''series.pickle'', File ()),
                    (''sub'', Dir [(''deep'', Dir [(''x'', File ())]), (''y'', File ())])]),
      (''keep'', Dir [])])]"

text \<open>A store that is a chain of 1001 nested directories.\<close>

primrec nested_dirs :: "nat \<Rightarrow> unit node" where
  "nested_dirs 0 = Dir []"
| "nested_dirs (Suc n) = Dir [(''d'', nested_dirs n)]"

definition fs_deep :: "unit node" where
  "fs_deep = Dir [(''rngtest'', Dir [(''deep'', nested_dirs 1000)])]"

subsection \<open>Example test results\<close>

text \<open>The entries of the example of the specification, and an instance at address \<open>0\<close>
  whose three properties are read before a second entry is inserted.\<close>

definition r05 :: "nat TestResult" where
  "r05 = \<lparr>heads = 1, tails = 0, statistic = 3, p = 0.5\<rparr>"

definition r02 :: "nat TestResult" where
  "r02 = \<lparr>heads = 1, tails = 0, statistic = 7, p = 0.2\<rparr>"



definition s_demo0 :: "(nat, nat) interp" where
  "s_demo0 = fresh (\<lambda>a. if a = 0 then [(1, r05)] else [])"

definition s_demo1 :: "(nat, nat) interp" where
  "s_demo1 = snd (min_item 0 (snd (pvalues 0 (snd (statistics 0 s_demo0)))))"

definition s_demo2 :: "(nat, nat) interp" where
  "s_demo2 = setitem 0 2 r02 s_demo1"




section \<open>Properties of \<^verbatim>\<open>ls_stores\<close>\<close>

lemma count_list_distinct:
  "distinct xs \<Longrightarrow> count_list xs x = (if x \<in> set xs then 1 else 0)"
  by (induction xs) auto

lemma distinct_dir_names:
  "distinct (map fst es) \<Longrightarrow> distinct (dir_names es)"
  unfolding dir_names_def by (simp add: distinct_map_filter)

text \<open>
  C4. When the storage root does not exist, the first \<^verbatim>\<open>scandir\<close> of \<^verbatim>\<open>ls_stores\<close>, which
  stands before the \<^verbatim>\<open>try\<close>, raises \<^verbatim>\<open>FileNotFoundError\<close>: consuming the generator ends
  with that exception instead of an empty sequence.
\<close>

theorem ls_stores_missing_root_raises:
  "consume (ls_stores fs_no_root) = Inl FileNotFoundError"
  by (simp add: consume_def ls_stores_def scandir_def data_dir_def fs_no_root_def)

text \<open>
  C10. When the storage root is a directory with entries \<open>es\<close> (of distinct names), the
  generator ends without an exception after yielding the names of the child directories
  twice over: \<open>2n\<close> names for \<open>n\<close> child directories, each name exactly twice.
\<close>

theorem ls_stores_yields_twice:
  assumes "resolve data_dir fs = Inr (Dir es)" and "distinct (map fst es)"
  shows "consume (ls_stores fs) = Inr (dir_names es @ dir_names es)
       \<and> length (dir_names es @ dir_names es) = 2 * length (dir_names es)
       \<and> (\<forall>x. count_list (dir_names es @ dir_names es) x = (if x \<in> set (dir_names es) then 2 else 0))"
proof -
  have "scandir data_dir fs = Inr es"
    using assms(1) by (simp add: scandir_def)
  then have "consume (ls_stores fs) = Inr (dir_names es @ dir_names es)"
    by (simp add: ls_stores_def consume_def)
  moreover have "count_list (dir_names es @ dir_names es) x = (if x \<in> set (dir_names es) then 2 else 0)" for x
    using count_list_distinct [OF distinct_dir_names [OF assms(2)], of x] by simp
  ultimately show ?thesis by simp
qed

theorem ls_stores_yields_twice_witness:
  "resolve data_dir fs_two_stores
     = Inr (Dir [(''a'', Dir []), (''notes.txt'', File ()), (''b'', Dir [])])
   \<and> distinct (map fst [(''a'', Dir []), (''notes.txt'', File ()), (''b'', Dir [] :: unit node)])
   \<and> consume (ls_stores fs_two_stores) = Inr [''a'', ''b'', ''a'', ''b'']"
proof -
  have r: "resolve data_dir fs_two_stores
     = Inr (Dir [(''a'', Dir []), (''notes.txt'', File ()), (''b'', Dir [])])"
    by (simp add: data_dir_def fs_two_stores_def)
  have d: "distinct (map fst [(''a'', Dir []), (''notes.txt'', File ()), (''b'', Dir [] :: unit node)])"
    by simp
  show ?thesis
    using r d ls_stores_yields_twice [OF r d] by (simp add: dir_names_def)
qed

section \<open>Paths\<close>

lemma resolve_append:
  "resolve (pth @ q) fs = (case resolve pth fs of Inl e \<Rightarrow> Inl e | Inr n \<Rightarrow> resolve q n)"
  by (induction pth arbitrary: fs) (auto split: node.splits option.splits)

lemma resolve_error:
  "resolve pth fs = Inl e \<Longrightarrow> e = NotADirectoryError \<or> e = FileNotFoundError"
  by (induction pth arbitrary: fs) (auto split: node.splits option.splits)

lemma pickle_load_error: "pickle_load c = Inl e \<Longrightarrow> e = EOFError"
  by (cases c) auto

section \<open>Properties of \<^verbatim>\<open>get_data\<close>\<close>

text \<open>
  C8. \<^verbatim>\<open>get_data\<close> raises \<^verbatim>\<open>StoreNotFoundError\<close> exactly when the path of the store does
  not exist; for a store that is a directory it raises \<^verbatim>\<open>DataNotFoundError\<close> exactly when
  the directory has no sequence artifact; the two exceptions differ; and when the
  artifact is a file holding a pickled object, that object is returned.
\<close>

theorem get_data_distinguishes:
  "(get_data name fs = Inl StoreNotFoundError \<longleftrightarrow> \<not> exists (store_path name) fs)
 \<and> (\<forall>es. resolve (store_path name) fs = Inr (Dir es)
        \<longrightarrow> (get_data name fs = Inl DataNotFoundError \<longleftrightarrow> map_of es PROFILED_DATA_FNAME = None))
 \<and> (\<forall>obj. resolve (store_path name @ [PROFILED_DATA_FNAME]) fs = Inr (File (Pickled obj))
        \<longrightarrow> get_data name fs = Inr obj)
 \<and> StoreNotFoundError \<noteq> DataNotFoundError"
proof -
  have 1: "get_data name fs = Inl StoreNotFoundError \<longleftrightarrow> \<not> exists (store_path name) fs"
    by (auto simp: get_data_def read_file_def split: sum.splits node.splits
             dest: resolve_error pickle_load_error)
  have 2: "get_data name fs = Inl DataNotFoundError \<longleftrightarrow> map_of es PROFILED_DATA_FNAME = None"
    if "resolve (store_path name) fs = Inr (Dir es)" for es
    using that
    by (auto simp: get_data_def exists_def read_file_def resolve_append
             split: sum.splits node.splits option.splits dest: pickle_load_error)
  have 3: "get_data name fs = Inr obj"
    if "resolve (store_path name @ [PROFILED_DATA_FNAME]) fs = Inr (File (Pickled obj))" for obj
    using that
    by (auto simp: get_data_def exists_def read_file_def resolve_append split: sum.splits)
  show ?thesis using 1 2 3 by blast
qed

theorem get_data_distinguishes_witness:
  "\<not> exists (store_path ''gone'') fs_demo
 \<and> get_data ''gone'' fs_demo = Inl StoreNotFoundError
 \<and> resolve (store_path ''empty'') fs_demo = Inr (Dir [])
 \<and> get_data ''empty'' fs_demo = Inl DataNotFoundError
 \<and> resolve (store_path ''demo'' @ [PROFILED_DATA_FNAME]) fs_demo
      = Inr (File (Pickled (Series [0, 1, 1, 0, 1])))
 \<and> get_data ''demo'' fs_demo = Inr (Series [0, 1, 1, 0, 1])"
proof -
  have a: "\<not> exists (store_path ''gone'') fs_demo"
    by (simp add: exists_def store_path_def data_dir_def fs_demo_def)
  have b: "resolve (store_path ''empty'') fs_demo = Inr (Dir [])"
    by (simp add: store_path_def data_dir_def fs_demo_def)
  have c: "resolve (store_path ''demo'' @ [PROFILED_DATA_FNAME]) fs_demo
             = Inr (File (Pickled (Series [0, 1, 1, 0, 1])))"
    by (simp add: store_path_def data_dir_def fs_demo_def PROFILED_DATA_FNAME_def)
  show ?thesis
    using a b c get_data_distinguishes [of "''gone''" fs_demo]
      get_data_distinguishes [of "''empty''" fs_demo] get_data_distinguishes [of "''demo''" fs_demo]
    by simp
qed

section \<open>Properties of \<^verbatim>\<open>open_results\<close>\<close>

text \<open>
  C1. Store \<open>demo\<close> holds the persisted results \<open>{Runs: 42}\<close>. A write transaction whose
  block adds an entry and then raises ends with that exception, and the read transaction
  after it yields the empty dictionary: the file was emptied when it was opened for
  writing, before the block ran.
\<close>

theorem failed_write_truncates:
  "fst (open_results_enter ''demo'' False fs_demo) = Inr (ResultsDict [(''Runs'', 42)])
 \<and> fst (with_open_results ''demo'' True failing_block fs_demo) = Some RuntimeError
 \<and> fst (open_results_enter ''demo'' False (snd (with_open_results ''demo'' True failing_block fs_demo)))
      = Inr (ResultsDict [])"
  by (simp add: open_results_enter_def with_open_results_def open_results_exit_def failing_block_def
      fs_demo_def store_path_def data_dir_def RESULTS_FNAME_def exists_def read_file_def write_file_def)

text \<open>
  C3. Store \<open>empty\<close> is an existing directory without a results artifact. Entering a
  read-only transaction on it raises \<^verbatim>\<open>FileNotFoundError\<close>: after choosing the empty
  dictionary, the function opens the missing file for reading.
\<close>

theorem read_without_artifact_raises:
  "resolve (store_path ''empty'') fs_demo = Inr (Dir [])
 \<and> fst (open_results_enter ''empty'' False fs_demo) = Inl FileNotFoundError"
  by (simp add: open_results_enter_def fs_demo_def store_path_def data_dir_def RESULTS_FNAME_def
      exists_def read_file_def)

section \<open>Properties of the name synthesis of \<^verbatim>\<open>init_store\<close>\<close>

lemma contains_existing_store:
  assumes "resolve (store_path name) fs = Inr (Dir es)"
  shows "contains name (ls_stores fs) = Inr True"
proof -
  from assms obtain stores where r: "resolve data_dir fs = Inr (Dir stores)"
    and m: "map_of stores name = Some (Dir es)"
    by (auto simp: store_path_def resolve_append split: sum.splits node.splits option.splits)
  from m have "(name, Dir es) \<in> set stores" by (rule map_of_SomeD)
  then have "name \<in> set (dir_names stores)"
    by (force simp: dir_names_def)
  with r show ?thesis
    by (simp add: contains_def ls_stores_def scandir_def)
qed

lemma try_names_reads: "snd (try_names k now t fs) \<le> t + k"
proof (induction k arbitrary: t)
  case 0
  show ?case by simp
next
  case (Suc k)
  show ?case using Suc.IH [of "Suc t"] by (simp split: sum.splits)
qed

lemma try_names_conflict:
  "(\<And>i. i < k \<Longrightarrow> \<exists>es. resolve (store_path (now (t + i))) fs = Inr (Dir es))
     \<Longrightarrow> try_names k now t fs = (Inl NameConflictError, t + k)"
proof (induction k arbitrary: t)
  case 0
  show ?case by simp
next
  case (Suc k)
  from Suc.prems [of 0] obtain es where "resolve (store_path (now t)) fs = Inr (Dir es)"
    by auto
  then have c: "contains (now t) (ls_stores fs) = Inr True"
    by (rule contains_existing_store)
  have "try_names k now (Suc t) fs = (Inl NameConflictError, Suc t + k)"
  proof (rule Suc.IH)
    fix i assume "i < k"
    then show "\<exists>es. resolve (store_path (now (Suc t + i))) fs = Inr (Dir es)"
      using Suc.prems [of "Suc i"] by simp
  qed
  with c show ?case by simp
qed

text \<open>
  C6. Without a name, \<^verbatim>\<open>init_store\<close> reads the clock at most 3 times, whatever the file
  system is. When each of the 3 candidate names is the name of an existing store
  directory, exactly 3 readings are made, \<^verbatim>\<open>NameConflictError\<close> is raised, and the file
  system is left as it was: no directory is created.
\<close>

theorem init_store_name_conflict:
  assumes "\<forall>t<UNIQUE_STORENAME_ATTEMPTS. \<exists>es. resolve (store_path (now t)) fs = Inr (Dir es)"
  shows "UNIQUE_STORENAME_ATTEMPTS = 3
       \<and> (\<forall>fs' :: 'c node. snd (try_names UNIQUE_STORENAME_ATTEMPTS now 0 fs') \<le> 3)
       \<and> try_names UNIQUE_STORENAME_ATTEMPTS now 0 fs = (Inl NameConflictError, 3)
       \<and> init_store slugify now depth None overwrite fs = (Inl NameConflictError, fs)"
proof -
  have "try_names UNIQUE_STORENAME_ATTEMPTS now 0 fs = (Inl NameConflictError, 0 + UNIQUE_STORENAME_ATTEMPTS)"
    by (rule try_names_conflict) (use assms in simp)
  moreover have "snd (try_names UNIQUE_STORENAME_ATTEMPTS now 0 fs') \<le> 3" for fs' :: "'c node"
    using try_names_reads [of UNIQUE_STORENAME_ATTEMPTS now 0 fs']
    by (simp add: UNIQUE_STORENAME_ATTEMPTS_def)
  ultimately show ?thesis
    by (simp add: init_store_def UNIQUE_STORENAME_ATTEMPTS_def)
qed

theorem init_store_name_conflict_witness:
  "(\<exists>es. resolve (store_path (clock_demo 0)) fs_taken = Inr (Dir es))
 \<and> (\<exists>es. resolve (store_path (clock_demo 1)) fs_taken = Inr (Dir es))
 \<and> (\<exists>es. resolve (store_path (clock_demo 2)) fs_taken = Inr (Dir es))
 \<and> init_store id clock_demo 0 None False fs_taken = (Inl NameConflictError, fs_taken)"
proof -
  have r: "\<exists>es. resolve (store_path (clock_demo t)) fs_taken = Inr (Dir es)" for t
    by (simp add: clock_demo_def store_path_def data_dir_def fs_taken_def)
  then have h: "\<forall>t<UNIQUE_STORENAME_ATTEMPTS. \<exists>es. resolve (store_path (clock_demo t)) fs_taken = Inr (Dir es)"
    by blast
  show ?thesis
    using r init_store_name_conflict [OF h, of id 0 False] by blast
qed

section \<open>Properties of \<^verbatim>\<open>rm_tree\<close> and \<^verbatim>\<open>drop\<close>\<close>

lemma modify_put_dir:
  "resolve pth fs = Inr (Dir es) \<Longrightarrow>
     modify pth g fs = (case g es of Inl e \<Rightarrow> Inl e | Inr es' \<Rightarrow> Inr (put_dir pth es' fs))"
  by (induction pth arbitrary: fs) (auto split: node.splits option.splits sum.splits)

lemma resolve_put_dir:
  "resolve pth fs = Inr (Dir es) \<Longrightarrow> resolve pth (put_dir pth es' fs) = Inr (Dir es')"
  by (induction pth arbitrary: fs) (auto simp: update_conv' split: node.splits option.splits)

lemma put_dir_same:
  "resolve pth fs = Inr (Dir es) \<Longrightarrow> put_dir pth es fs = fs"
  by (induction pth arbitrary: fs) (auto simp: update_triv split: node.splits option.splits)

lemma put_dir_twice:
  "put_dir pth a (put_dir pth b fs) = put_dir pth a fs"
  by (induction pth arbitrary: fs) (auto simp: update_conv' split: node.splits option.splits)

lemma put_dir_child:
  "resolve q fs = Inr (Dir pes) \<Longrightarrow> map_of pes k = Some c \<Longrightarrow>
     put_dir (q @ k # r) es' fs = put_dir q (AList.update k (put_dir r es' c) pes) fs"
  by (induction q arbitrary: fs) (auto split: node.splits option.splits)


lemma fold_max_le:
  "fold max xs a \<le> (m::nat) \<longleftrightarrow> a \<le> m \<and> (\<forall>x \<in> set xs. x \<le> m)"
  by (induction xs arbitrary: a) auto

lemma height_Dir_le:
  "height (Dir es) \<le> Suc m \<longleftrightarrow> (\<forall>e \<in> set es. height (snd e) \<le> m)"
  by (simp add: fold_max_le)

lemma glob_dir: "resolve pth fs = Inr (Dir es) \<Longrightarrow> glob pth fs = map fst es"
  by (simp add: glob_def scandir_def)

lemma unlink_child:
  assumes "resolve pth fs = Inr (Dir es)" and "map_of es k = Some (File c)"
  shows "unlink (pth @ [k]) fs = Inr (put_dir pth (AList.delete k es) fs)"
  using assms by (simp add: unlink_def modify_put_dir)

lemma rmdir_child:
  assumes "resolve pth fs = Inr (Dir es)" and "map_of es k = Some (Dir [])"
  shows "rmdir (pth @ [k]) fs = Inr (put_dir pth (AList.delete k es) fs)"
  using assms by (simp add: rmdir_def modify_put_dir)

lemma is_file_child:
  assumes "resolve pth fs = Inr (Dir es)" and "map_of es k = Some c"
  shows "is_file (pth @ [k]) fs \<longleftrightarrow> \<not> is_dir c"
  using assms by (cases c) (simp_all add: is_file_def resolve_append)

text \<open>The loop of \<open>rm_tree\<close> empties the directory, given that the recursive calls remove
  the subdirectories.\<close>

lemma rm_children:
  fixes fs :: "'c node"
  assumes rec: "\<And>(fs :: 'c node) pes k es. resolve pth fs = Inr (Dir pes) \<Longrightarrow> map_of pes k = Some (Dir es)
            \<Longrightarrow> wf_node (Dir es) \<Longrightarrow> height (Dir es) \<le> m
            \<Longrightarrow> rm_tree m (pth @ [k]) fs = (Inr (), put_dir pth (AList.delete k pes) fs)"
  shows "resolve pth fs = Inr (Dir es) \<Longrightarrow> wf_node (Dir es) \<Longrightarrow> height (Dir es) \<le> Suc m \<Longrightarrow>
     for_each (\<lambda>child fs.
                if is_file (pth @ [child]) fs then attempt (unlink (pth @ [child]) fs) fs
                else rm_tree m (pth @ [child]) fs) (map fst es) fs
       = (Inr (), put_dir pth [] fs)"
proof (induction es arbitrary: fs)
  case Nil
  then show ?case by (simp add: put_dir_same)
next
  case (Cons e rest)
  obtain k c where e: "e = (k, c)" by (cases e)
  from Cons.prems(2) have notin: "k \<notin> fst ` set rest" and wfc: "wf_node c"
    and wfr: "wf_node (Dir rest)"
    by (auto simp: e)
  have hc: "height c \<le> m" and hr: "height (Dir rest) \<le> Suc m"
    using Cons.prems(3) unfolding height_Dir_le by (simp_all add: e)
  have m: "map_of (e # rest) k = Some c" by (simp add: e)
  have del: "AList.delete k (e # rest) = rest"
    using notin by (simp add: e)
  let ?fs1 = "put_dir pth rest fs"
  have step: "(if is_file (pth @ [k]) fs then attempt (unlink (pth @ [k]) fs) fs
               else rm_tree m (pth @ [k]) fs) = (Inr (), ?fs1)"
  proof (cases c)
    case (File x)
    with Cons.prems(1) m del show ?thesis
      by (simp add: is_file_child unlink_child attempt_def)
  next
    case (Dir ces)
    with Cons.prems(1) m del wfc hc show ?thesis
      using rec [of fs "e # rest" k ces] by (simp add: is_file_child)
  qed
  have r1: "resolve pth ?fs1 = Inr (Dir rest)"
    using Cons.prems(1) by (rule resolve_put_dir)
  have "for_each (\<lambda>child fs.
                if is_file (pth @ [child]) fs then attempt (unlink (pth @ [child]) fs) fs
                else rm_tree m (pth @ [child]) fs) (map fst rest) ?fs1
       = (Inr (), put_dir pth [] ?fs1)"
    using r1 wfr hr by (rule Cons.IH)
  with step show ?case by (simp add: e put_dir_twice)
qed


lemma rm_tree_dir:
  fixes fs :: "'c node"
  shows "resolve q fs = Inr (Dir pes) \<Longrightarrow> map_of pes k = Some (Dir es) \<Longrightarrow> wf_node (Dir es)
     \<Longrightarrow> height (Dir es) \<le> depth
     \<Longrightarrow> rm_tree depth (q @ [k]) fs = (Inr (), put_dir q (AList.delete k pes) fs)"
proof (induction depth arbitrary: q fs pes k es)
  case 0
  then show ?case by simp
next
  case (Suc m)
  let ?p = "q @ [k]"
  have rp: "resolve ?p fs = Inr (Dir es)"
    using Suc.prems(1,2) by (simp add: resolve_append)
  have loop: "for_each (\<lambda>child fs.
                if is_file (?p @ [child]) fs then attempt (unlink (?p @ [child]) fs) fs
                else rm_tree m (?p @ [child]) fs) (map fst es) fs
       = (Inr (), put_dir ?p [] fs)"
    using Suc.IH rp Suc.prems(3,4) by (rule rm_children)
  have emptied: "put_dir ?p [] fs = put_dir q (AList.update k (Dir []) pes) fs"
    using put_dir_child [OF Suc.prems(1,2), of "[]" "[]"] by simp
  have rq: "resolve q (put_dir ?p [] fs) = Inr (Dir (AList.update k (Dir []) pes))"
    unfolding emptied using Suc.prems(1) by (rule resolve_put_dir)
  have "rmdir ?p (put_dir ?p [] fs)
          = Inr (put_dir q (AList.delete k (AList.update k (Dir []) pes)) (put_dir ?p [] fs))"
    using rq by (rule rmdir_child) (simp add: update_conv')
  then have "rmdir ?p (put_dir ?p [] fs) = Inr (put_dir q (AList.delete k pes) fs)"
    by (simp add: emptied put_dir_twice delete_update_same)
  with loop show ?case
    by (simp add: glob_dir [OF rp] attempt_def)
qed

lemma not_exists_deleted:
  assumes "resolve q fs = Inr (Dir pes)"
  shows "resolve (q @ [k]) (put_dir q (AList.delete k pes) fs) = Inl FileNotFoundError"
  using resolve_put_dir [OF assms, of "AList.delete k pes"]
  by (simp add: resolve_append delete_conv')

lemma nested_dirs_is_dir: "is_dir (nested_dirs n)"
  by (cases n) simp_all

lemma wf_nested_dirs: "wf_node (nested_dirs n)"
  by (induction n) simp_all

lemma rm_tree_nested_dirs:
  "resolve pth fs = Inr (nested_dirs n) \<Longrightarrow> rm_tree n pth fs = (Inl RecursionError, fs)"
proof (induction n arbitrary: pth)
  case 0
  show ?case by simp
next
  case (Suc n)
  have c: "resolve (pth @ [''d'']) fs = Inr (nested_dirs n)"
    using Suc.prems by (simp add: resolve_append)
  then have r: "rm_tree n (pth @ [''d'']) fs = (Inl RecursionError, fs)"
    by (rule Suc.IH)
  have f: "\<not> is_file (pth @ [''d'']) fs"
    using c nested_dirs_is_dir [of n] by (cases "nested_dirs n") (simp_all add: is_file_def)
  have g: "glob pth fs = [''d'']"
    using Suc.prems by (simp add: glob_def scandir_def)
  show ?case by (simp add: g f r)
qed

text \<open>
  C9, as stated, fails. A well-formed store that is a chain of 1001 nested directories is
  dropped with 1000 nested calls allowed, the default recursion limit of the interpreter:
  the innermost call raises \<^verbatim>\<open>RecursionError\<close>, nothing has been deleted, and the path of
  the store still exists.
\<close>

theorem rm_tree_deep_counterexample:
  "wf_node (nested_dirs 1000)
 \<and> resolve (store_path ''deep'') fs_deep = Inr (nested_dirs 1000)
 \<and> drop_store 1000 ''deep'' fs_deep = (Inl RecursionError, fs_deep)
 \<and> exists (store_path ''deep'') fs_deep"
proof -
  have r: "resolve (store_path ''deep'') fs_deep = Inr (nested_dirs 1000)"
    by (simp add: store_path_def data_dir_def fs_deep_def)
  have "rm_tree 1000 (store_path ''deep'') fs_deep = (Inl RecursionError, fs_deep)"
    using r by (rule rm_tree_nested_dirs)
  with r show ?thesis
    by (simp add: drop_store_def exists_def wf_nested_dirs)
qed

text \<open>
  C9, amended. Let \<open>q @ [k]\<close> be the path of a directory with well-formed contents \<open>es\<close>,
  nested no deeper than the number of nested calls allowed. Then \<^verbatim>\<open>rm_tree\<close> returns
  without an exception; afterwards the path does not exist and the parent directory has
  lost exactly the entries named \<open>k\<close>. For a store (\<open>q\<close> is the storage root) this is
  what \<^verbatim>\<open>drop\<close> does, and the name is no longer listed by \<^verbatim>\<open>ls_stores\<close>.
\<close>

theorem rm_tree_removes_tree:
  fixes fs :: "'c node"
  assumes "resolve q fs = Inr (Dir pes)" and "map_of pes k = Some (Dir es)"
    and "wf_node (Dir es)" and "height (Dir es) \<le> depth"
  shows "\<exists>fs'. rm_tree depth (q @ [k]) fs = (Inr (), fs')
            \<and> \<not> exists (q @ [k]) fs'
            \<and> resolve q fs' = Inr (Dir (AList.delete k pes))
            \<and> (q = data_dir \<longrightarrow> drop_store depth k fs = (Inr (), fs') \<and> k \<notin> set (fst (ls_stores fs')))"
proof -
  let ?fs' = "put_dir q (AList.delete k pes) fs"
  have 1: "rm_tree depth (q @ [k]) fs = (Inr (), ?fs')"
    using assms by (rule rm_tree_dir)
  have 2: "\<not> exists (q @ [k]) ?fs'"
    using not_exists_deleted [OF assms(1), of k] by (simp add: exists_def)
  have 3: "resolve q ?fs' = Inr (Dir (AList.delete k pes))"
    using assms(1) by (rule resolve_put_dir)
  have 4: "k \<notin> set (fst (ls_stores ?fs'))" if "q = data_dir"
  proof -
    have "k \<notin> fst ` set (AList.delete k pes)" by (rule delete_notin_dom)
    then have "k \<notin> set (dir_names (AList.delete k pes))"
      by (auto simp: dir_names_def)
    with 3 that show ?thesis
      by (simp add: ls_stores_def scandir_def)
  qed
  from 1 2 3 4 show ?thesis
    by (auto simp: drop_store_def store_path_def)
qed

theorem rm_tree_removes_tree_witness:
  "resolve data_dir fs_nested
      = Inr (Dir [(''old'', Dir [(''series.pickle'', File ()),
                    (''sub'', Dir [(''deep'', Dir [(''x'', File ())]), (''y'', File ())])]),
                  (''keep'', Dir [])])
 \<and> wf_node (Dir [(''series.pickle'', File ()),
                    (''sub'', Dir [(''deep'', Dir [(''x'', File ())]), (''y'', File ())])] :: unit node)
 \<and> height (Dir [(''series.pickle'', File ()),
                    (''sub'', Dir [(''deep'', Dir [(''x'', File ())]), (''y'', File ())])] :: unit node) \<le> 3
 \<and> (\<exists>fs'. drop_store 3 ''old'' fs_nested = (Inr (), fs')
          \<and> \<not> exists (store_path ''old'') fs'
          \<and> resolve data_dir fs' = Inr (Dir [(''keep'', Dir [])])
          \<and> ''old'' \<notin> set (fst (ls_stores fs')))"
proof -
  let ?es = "[(''series.pickle'', File ()),
                    (''sub'', Dir [(''deep'', Dir [(''x'', File ())]), (''y'', File ())])] :: (string \<times> unit node) list"
  let ?root = "[(''old'', Dir ?es), (''keep'', Dir [])]"
  have a: "resolve data_dir fs_nested = Inr (Dir ?root)"
    by (simp add: data_dir_def fs_nested_def)
  have b: "map_of ?root ''old'' = Some (Dir ?es)" by simp
  have c: "wf_node (Dir ?es)" by simp
  have d: "height (Dir ?es) \<le> 3" by simp
  show ?thesis
    using a c d rm_tree_removes_tree [OF a b c d] by (auto simp: store_path_def)
qed

section \<open>Properties of \<^verbatim>\<open>init_store\<close> on an existing store\<close>

lemma mkdir_existing:
  assumes "resolve q fs = Inr (Dir pes)" and "map_of pes k = Some c"
  shows "mkdir (q @ [k]) fs = Inl FileExistsError"
  using assms by (simp add: mkdir_def modify_put_dir)

lemma mkdir_new:
  assumes "resolve q fs = Inr (Dir pes)" and "map_of pes k = None"
  shows "mkdir (q @ [k]) fs = Inr (put_dir q (pes @ [(k, Dir [])]) fs)"
  using assms by (simp add: mkdir_def modify_put_dir)

text \<open>
  C7, as stated, fails in its second half. The store \<open>deep\<close> is an existing directory, a
  chain of 1001 nested directories. With \<^verbatim>\<open>overwrite\<close> and 1000 nested calls allowed,
  \<^verbatim>\<open>init_store\<close> raises \<^verbatim>\<open>RecursionError\<close> out of \<^verbatim>\<open>rm_tree\<close>; the store is neither deleted
  nor recreated.
\<close>

theorem init_store_overwrite_deep_counterexample:
  "resolve (store_path ''deep'') fs_deep = Inr (nested_dirs 1000)
 \<and> init_store id clock_demo 1000 (Some ''deep'') True fs_deep = (Inl RecursionError, fs_deep)"
proof -
  have r: "resolve (store_path ''deep'') fs_deep = Inr (nested_dirs 1000)"
    by (simp add: store_path_def data_dir_def fs_deep_def)
  have d: "resolve data_dir fs_deep = Inr (Dir [(''deep'', nested_dirs 1000)])"
    by (simp add: data_dir_def fs_deep_def)
  have m: "mkdir (store_path ''deep'') fs_deep = Inl FileExistsError"
    unfolding store_path_def using d by (rule mkdir_existing) simp
  have "rm_tree 1000 (store_path ''deep'') fs_deep = (Inl RecursionError, fs_deep)"
    using r by (rule rm_tree_nested_dirs)
  with r m show ?thesis
    by (simp add: init_store_def)
qed

text \<open>
  C7, amended. Let the resolved name \<open>slugify name\<close> be the name of an existing store
  directory. Without \<^verbatim>\<open>overwrite\<close>, \<^verbatim>\<open>init_store\<close> raises \<^verbatim>\<open>StoreExistsError\<close> and the file
  system is unchanged. With \<^verbatim>\<open>overwrite\<close>, when the store's tree is well formed and nested
  no deeper than the number of nested calls allowed, it returns the resolved name and its
  path, the store is an empty directory afterwards, and the other entries of the root
  are kept.
\<close>

theorem init_store_existing:
  fixes fs :: "'c node"
  assumes "resolve data_dir fs = Inr (Dir stores)" and "map_of stores (slugify name) = Some (Dir es)"
  shows "init_store slugify now depth (Some name) False fs = (Inl StoreExistsError, fs)
       \<and> (wf_node (Dir es) \<and> height (Dir es) \<le> depth \<longrightarrow>
            (\<exists>fs'. init_store slugify now depth (Some name) True fs
                      = (Inr (slugify name, store_path (slugify name)), fs')
                  \<and> resolve (store_path (slugify name)) fs' = Inr (Dir [])
                  \<and> resolve data_dir fs'
                      = Inr (Dir (AList.delete (slugify name) stores @ [(slugify name, Dir [])]))))"
proof -
  let ?s = "slugify name"
  have ex: "mkdir (store_path ?s) fs = Inl FileExistsError"
    unfolding store_path_def using assms by (rule mkdir_existing)
  then have 1: "init_store slugify now depth (Some name) False fs = (Inl StoreExistsError, fs)"
    by (simp add: init_store_def)
  have 2: "\<exists>fs'. init_store slugify now depth (Some name) True fs = (Inr (?s, store_path ?s), fs')
                  \<and> resolve (store_path ?s) fs' = Inr (Dir [])
                  \<and> resolve data_dir fs' = Inr (Dir (AList.delete ?s stores @ [(?s, Dir [])]))"
    if wf: "wf_node (Dir es)" and h: "height (Dir es) \<le> depth"
  proof -
    let ?fs1 = "put_dir data_dir (AList.delete ?s stores) fs"
    let ?fs2 = "put_dir data_dir (AList.delete ?s stores @ [(?s, Dir [])]) fs"
    have rm: "rm_tree depth (store_path ?s) fs = (Inr (), ?fs1)"
      unfolding store_path_def using assms wf h by (rule rm_tree_dir)
    have r1: "resolve data_dir ?fs1 = Inr (Dir (AList.delete ?s stores))"
      using assms(1) by (rule resolve_put_dir)
    have "mkdir (store_path ?s) ?fs1 = Inr (put_dir data_dir (AList.delete ?s stores @ [(?s, Dir [])]) ?fs1)"
      unfolding store_path_def using r1 by (rule mkdir_new) (simp add: delete_conv')
    then have mk: "mkdir (store_path ?s) ?fs1 = Inr ?fs2"
      by (simp add: put_dir_twice)
    have r2: "resolve data_dir ?fs2 = Inr (Dir (AList.delete ?s stores @ [(?s, Dir [])]))"
      using assms(1) by (rule resolve_put_dir)
    then have r3: "resolve (store_path ?s) ?fs2 = Inr (Dir [])"
      by (simp add: store_path_def resolve_append delete_conv' map_add_def)
    from ex rm mk r2 r3 show ?thesis
      by (simp add: init_store_def)
  qed
  from 1 2 show ?thesis by blast
qed

theorem init_store_existing_witness:
  "resolve data_dir fs_nested
      = Inr (Dir [(''old'', Dir [(''series.pickle'', File ()),
                    (''sub'', Dir [(''deep'', Dir [(''x'', File ())]), (''y'', File ())])]),
                  (''keep'', Dir [])])
 \<and> init_store id clock_demo 3 (Some ''old'') False fs_nested = (Inl StoreExistsError, fs_nested)
 \<and> (\<exists>fs'. init_store id clock_demo 3 (Some ''old'') True fs_nested
                      = (Inr (''old'', store_path ''old''), fs')
                  \<and> resolve (store_path ''old'') fs' = Inr (Dir [])
                  \<and> resolve data_dir fs' = Inr (Dir [(''keep'', Dir []), (''old'', Dir [])]))"
proof -
  let ?es = "[(''series.pickle'', File ()),
                    (''sub'', Dir [(''deep'', Dir [(''x'', File ())]), (''y'', File ())])] :: (string \<times> unit node) list"
  let ?root = "[(''old'', Dir ?es), (''keep'', Dir [])]"
  have a: "resolve data_dir fs_nested = Inr (Dir ?root)"
    by (simp add: data_dir_def fs_nested_def)
  have b: "map_of ?root (id ''old'') = Some (Dir ?es)" by simp
  have c: "wf_node (Dir ?es) \<and> height (Dir ?es) \<le> 3" by simp
  show ?thesis
    using a c init_store_existing [where slugify = id and name = "''old''" and now = clock_demo
        and depth = 3, OF a b]
    by auto
qed

section \<open>Properties of \<^verbatim>\<open>MultiTestResult\<close>\<close>






text \<open>
  C2, as stated, fails. The three properties of the instance at address \<open>0\<close> are read,
  then a second entry is inserted; a further read of each property returns the value
  computed at the first read, which differs from the function of the updated contents.
\<close>

theorem stale_views_counterexample:
  "heap s_demo2 0 = [(1, r05), (2, r02)]
 \<and> fst (statistics 0 s_demo2) = Inr [3] \<and> statistics_uncached (heap s_demo2 0) = [3, 7]
 \<and> fst (pvalues 0 s_demo2) = Inr [0.5] \<and> pvalues_uncached (heap s_demo2 0) = [0.5, 0.2]
 \<and> fst (min_item 0 s_demo2) = Inr (1, r05) \<and> min_uncached (heap s_demo2 0) = Inr (2, r02)"
  by (simp add: s_demo2_def s_demo1_def s_demo0_def fresh_def setitem_def statistics_def
      pvalues_def min_item_def lru_cache_call_def key_eq_def maxsize_def
      statistics_uncached_def pvalues_uncached_def min_uncached_def r05_def r02_def)

lemma lru_miss_empty:
  "lru_cache_call eq f k [] = (case f k of Inl e \<Rightarrow> (Inl e, []) | Inr r \<Rightarrow> (Inr r, [(k, r)]))"
  by (simp add: lru_cache_call_def maxsize_def split: sum.splits)

lemma lru_hit_own:
  "lru_cache_call (key_eq h) f k [(k, v)] = (Inr v, [(k, v)])"
  by (simp add: lru_cache_call_def key_eq_def)

lemma caches_after_inserts:
  "statistics_cache (fold (\<lambda>(f, r). setitem self f r) ins s) = statistics_cache s
 \<and> pvalues_cache (fold (\<lambda>(f, r). setitem self f r) ins s) = pvalues_cache s
 \<and> min_cache (fold (\<lambda>(f, r). setitem self f r) ins s) = min_cache s"
  by (induction ins arbitrary: s) (auto simp: setitem_def)

text \<open>
  C2, amended. In an interpreter whose three caches are empty, the first read of
  \<^verbatim>\<open>statistics\<close>, \<^verbatim>\<open>pvalues\<close> and \<^verbatim>\<open>min\<close> of an instance returns the function of the
  contents at that time; after any entries \<open>ins\<close> are inserted into the instance, a
  further read returns that same value again (for \<^verbatim>\<open>min\<close>, when the first read was on a
  non-empty dictionary, so that a value was cached).
\<close>

theorem views_cached_on_first_access:
  fixes s :: "('f, 'a) interp"
  assumes "statistics_cache s = []" and "pvalues_cache s = []" and "min_cache s = []"
  shows "fst (statistics self s) = Inr (statistics_uncached (heap s self))
       \<and> fst (statistics self (fold (\<lambda>(f, r). setitem self f r) ins (snd (statistics self s))))
           = Inr (statistics_uncached (heap s self))
       \<and> fst (pvalues self s) = Inr (pvalues_uncached (heap s self))
       \<and> fst (pvalues self (fold (\<lambda>(f, r). setitem self f r) ins (snd (pvalues self s))))
           = Inr (pvalues_uncached (heap s self))
       \<and> fst (min_item self s) = min_uncached (heap s self)
       \<and> (heap s self \<noteq> [] \<longrightarrow>
            fst (min_item self (fold (\<lambda>(f, r). setitem self f r) ins (snd (min_item self s))))
              = min_uncached (heap s self))"
proof -
  let ?ins = "fold (\<lambda>(f, r). setitem self f r) ins"
  have s1: "statistics self s
      = (Inr (statistics_uncached (heap s self)),
         s\<lparr>statistics_cache := [(self, statistics_uncached (heap s self))]\<rparr>)"
    by (simp add: statistics_def assms(1) lru_miss_empty)
  have s2: "fst (statistics self (?ins (snd (statistics self s))))
      = Inr (statistics_uncached (heap s self))"
    unfolding s1 by (simp add: statistics_def caches_after_inserts lru_hit_own)
  have p1: "pvalues self s
      = (Inr (pvalues_uncached (heap s self)),
         s\<lparr>pvalues_cache := [(self, pvalues_uncached (heap s self))]\<rparr>)"
    by (simp add: pvalues_def assms(2) lru_miss_empty)
  have p2: "fst (pvalues self (?ins (snd (pvalues self s))))
      = Inr (pvalues_uncached (heap s self))"
    unfolding p1 by (simp add: pvalues_def caches_after_inserts lru_hit_own)
  have m1: "fst (min_item self s) = min_uncached (heap s self)"
    by (simp add: min_item_def assms(3) lru_miss_empty split: sum.splits)
  have m2: "fst (min_item self (?ins (snd (min_item self s)))) = min_uncached (heap s self)"
    if "heap s self \<noteq> []"
  proof -
    from that obtain item where i: "min_uncached (heap s self) = Inr item"
      by (cases "heap s self") (auto simp: min_uncached_def)
    then have m: "min_item self s = (Inr item, s\<lparr>min_cache := [(self, item)]\<rparr>)"
      by (simp add: min_item_def assms(3) lru_miss_empty)
    show ?thesis
      unfolding m i by (simp add: min_item_def caches_after_inserts lru_hit_own)
  qed
  from s1 s2 p1 p2 m1 m2 show ?thesis by simp
qed

theorem views_cached_on_first_access_witness:
  "statistics_cache s_demo0 = [] \<and> pvalues_cache s_demo0 = [] \<and> min_cache s_demo0 = []
 \<and> heap s_demo0 0 \<noteq> []
 \<and> fst (statistics 0 s_demo0) = Inr [3]
 \<and> fst (statistics 0 (fold (\<lambda>(f, r). setitem 0 f r) [(2, r02)] (snd (statistics 0 s_demo0)))) = Inr [3]
 \<and> fst (pvalues 0 s_demo0) = Inr [0.5]
 \<and> fst (pvalues 0 (fold (\<lambda>(f, r). setitem 0 f r) [(2, r02)] (snd (pvalues 0 s_demo0)))) = Inr [0.5]
 \<and> fst (min_item 0 s_demo0) = Inr (1, r05)
 \<and> fst (min_item 0 (fold (\<lambda>(f, r). setitem 0 f r) [(2, r02)] (snd (min_item 0 s_demo0)))) = Inr (1, r05)"
proof -
  have a: "statistics_cache s_demo0 = []" and b: "pvalues_cache s_demo0 = []"
    and c: "min_cache s_demo0 = []"
    by (simp_all add: s_demo0_def fresh_def)
  have h: "heap s_demo0 0 = [(1, r05)]"
    by (simp add: s_demo0_def fresh_def)
  show ?thesis
    using a b c h views_cached_on_first_access [OF a b c, of 0 "[(2, r02)]"]
    by (simp add: statistics_uncached_def pvalues_uncached_def min_uncached_def r05_def)
qed

end
